theory Spec2Isabelle
  imports Main
begin

section \<open>Strings of the source language\<close>

text \<open>
  The Python sources work on strings read from text files. A string is modelled as a
  list of 8-bit characters. On such characters the regular expression \<open>\d\<close> matches the
  ten ASCII digits, and \<open>str.strip()\<close> / \<open>str.split()\<close> without arguments treat the six
  ASCII white-space characters (space, tab, line feed, vertical tab, form feed,
  carriage return) as separators.
\<close>

definition is_space :: "char \<Rightarrow> bool" where
  "is_space c \<longleftrightarrow>
     c = CHR '' '' \<or> c = CHR 0x09 \<or> c = CHR 0x0A \<or> c = CHR 0x0B \<or> c = CHR 0x0C \<or> c = CHR 0x0D"

definition is_digit :: "char \<Rightarrow> bool" where
  "is_digit c \<longleftrightarrow> c \<in> set ''0123456789''"

text \<open>\<open>_WORD_SPLIT = re.compile("([.,!?\"\':;)(])")\<close>: the characters of the class.\<close>

definition is_word_split :: "char \<Rightarrow> bool" where
  "is_word_split c \<longleftrightarrow> c \<in> set (''.,!?'' @ [CHR 0x22, CHR 0x27] @ '':;)('')"

text \<open>\<open>s.strip()\<close>: leading and trailing white space removed.\<close>

definition strip :: "string \<Rightarrow> string" where
  "strip s = rev (dropWhile is_space (rev (dropWhile is_space s)))"

text \<open>
  \<open>s.split()\<close>: the maximal runs of non-white-space characters, in order; \<open>cur\<close> is the
  run being read.
\<close>

fun split_from :: "string \<Rightarrow> string \<Rightarrow> string list" where
  "split_from cur [] = (if cur = [] then [] else [cur])"
| "split_from cur (c # cs) =
     (if is_space c then (if cur = [] then split_from [] cs else cur # split_from [] cs)
      else split_from (cur @ [c]) cs)"

definition split :: "string \<Rightarrow> string list" where
  "split s = split_from [] s"

text \<open>
  \<open>re.split(_WORD_SPLIT, s)\<close>: the pattern is one capturing group, so every separator
  character is kept as an element of its own between the pieces around it, and pieces
  may be empty.
\<close>

fun re_split_from :: "string \<Rightarrow> string \<Rightarrow> string list" where
  "re_split_from cur [] = [cur]"
| "re_split_from cur (c # cs) =
     (if is_word_split c then cur # [c] # re_split_from [] cs
      else re_split_from (cur @ [c]) cs)"

definition re_split :: "string \<Rightarrow> string list" where
  "re_split s = re_split_from [] s"

text \<open>\<open>re.sub(_DIGIT_RE, repl, w)\<close>: every digit of \<open>w\<close> replaced by \<open>repl\<close>.\<close>

definition re_sub_digit :: "string \<Rightarrow> string \<Rightarrow> string" where
  "re_sub_digit repl w = concat (map (\<lambda>c. if is_digit c then repl else [c]) w)"


section \<open>Tokenizer (\<open>trainer/data/data_utils.py\<close>)\<close>

definition PAD :: string where "PAD = ''_PAD''"
definition GO :: string where "GO = ''_GO''"
definition EOS :: string where "EOS = ''_EOS''"
definition UNK :: string where "UNK = ''_UNK''"

definition START_VOCAB :: "string list" where
  "START_VOCAB = [PAD, GO, EOS, UNK]"

definition PAD_ID :: int where "PAD_ID = 0"
definition GO_ID :: int where "GO_ID = 1"
definition EOS_ID :: int where "EOS_ID = 2"
definition UNK_ID :: int where "UNK_ID = 3"

text \<open>
  \<open>basic_tokenizer\<close> returns a Python \<open>str\<close> on the sentinel input and a list of
  strings otherwise; the two kinds of value are kept apart.
\<close>

datatype tokens = PyStr string | PyList "string list"

definition basic_tokenizer :: "string \<Rightarrow> tokens" where
  "basic_tokenizer sentence =
     (if strip sentence = ''breakHerePlease'' then PyStr (strip sentence)
      else PyList (filter (\<lambda>w. w \<noteq> [])
                     (concat (map re_split (split (strip sentence))))))"

text \<open>
  Iterating over the tokenizer's result (\<open>for w in tokens\<close>): a list yields its elements,
  a string yields its characters as one-character strings.
\<close>

fun iter_tokens :: "tokens \<Rightarrow> string list" where
  "iter_tokens (PyList ws) = ws"
| "iter_tokens (PyStr s) = map (\<lambda>c. [c]) s"


section \<open>Files and errors\<close>

text \<open>
  The file system is a map from paths to contents; \<open>gfile.Exists(p)\<close> is \<open>fs p \<noteq> None\<close>.
  Every \<open>raise\<close> of the sources is a value of \<open>error\<close>; reading a file that does not
  exist raises \<open>NotFoundError\<close>. What the functions print is not part of the state.
\<close>

type_synonym files = "string \<rightharpoonup> string"

datatype error =
    NotFoundError string
  | ValueError string string
  | TypeError string
  | RestoreError string
  | HTTPException nat
  | OtherError string

text \<open>
  Reading a file line by line (\<open>for line in f\<close>, \<open>f.readlines()\<close>): lines end at the
  line feed, which stays part of the line; a last line without line feed is a line too.
\<close>

fun readlines_from :: "string \<Rightarrow> string \<Rightarrow> string list" where
  "readlines_from cur [] = (if cur = [] then [] else [cur])"
| "readlines_from cur (c # cs) =
     (if c = CHR 0x0A then (cur @ [c]) # readlines_from [] cs
      else readlines_from (cur @ [c]) cs)"

definition readlines :: "string \<Rightarrow> string list" where
  "readlines content = readlines_from [] content"

text \<open>
  A file opened with \<open>gfile.GFile(path, mode="w")\<close> and written with a sequence of
  \<open>write\<close> calls: the file is created by the first \<open>write\<close>, so a sequence of no calls
  leaves the file system as it was.
\<close>

definition write_file :: "files \<Rightarrow> string \<Rightarrow> string list \<Rightarrow> files" where
  "write_file fs path chunks = (if chunks = [] then fs else fs(path \<mapsto> concat chunks))"

text \<open>\<open>str(n)\<close> and \<open>"%d" % n\<close> for an integer: its decimal numeral.\<close>

fun str_nat :: "nat \<Rightarrow> string" where
  "str_nat n =
     (if n < 10 then [''0123456789'' ! n]
      else str_nat (n div 10) @ [''0123456789'' ! (n mod 10)])"

declare str_nat.simps [simp del]

definition str_int :: "int \<Rightarrow> string" where
  "str_int i = (if i < 0 then ''-'' @ str_nat (nat (- i)) else str_nat (nat i))"

text \<open>\<open>xs[:n]\<close>: a negative \<open>n\<close> counts from the end, and the bounds are clamped.\<close>

definition slice_to :: "int \<Rightarrow> 'a list \<Rightarrow> 'a list" where
  "slice_to n xs = (if n < 0 then take (nat (int (length xs) + n)) xs else take (nat n) xs)"


section \<open>Vocabulary (\<open>trainer/data/data_utils.py\<close>)\<close>

text \<open>
  The dictionary \<open>vocab\<close> of \<open>create_vocabulary\<close> maps a word to its count. It is kept
  as an association list with distinct keys in the order of first insertion, the order
  in which a dictionary is iterated. The order only decides between words of equal
  count.
\<close>

type_synonym counts = "(string \<times> nat) list"

fun bump :: "string \<Rightarrow> counts \<Rightarrow> counts" where
  "bump word [] = [(word, 1)]"
| "bump word ((k, n) # kvs) =
     (if k = word then (k, n + 1) # kvs else (k, n) # bump word kvs)"

text \<open>Lines 63 to 69: the body of the loop over the lines of the data file.\<close>

definition count_line :: "bool \<Rightarrow> string \<Rightarrow> counts \<Rightarrow> counts" where
  "count_line normalize_digits line vocab =
     fold (\<lambda>w v. bump (if normalize_digits then re_sub_digit ''100'' w else w) v)
          (iter_tokens (basic_tokenizer line)) vocab"

text \<open>
  \<open>sorted(vocab, key=vocab.get, reverse=True)\<close>: the keys by descending count; the sort
  is stable, so words of equal count keep their order.
\<close>

definition sorted_by_count :: "counts \<Rightarrow> string list" where
  "sorted_by_count vocab = map fst (sort_key (\<lambda>kv. - int (snd kv)) vocab)"

definition create_vocabulary ::
  "files \<Rightarrow> string \<Rightarrow> string \<Rightarrow> int \<Rightarrow> bool \<Rightarrow> error + files" where
  "create_vocabulary fs vocabulary_path data_path max_vocabulary_size normalize_digits =
     (if fs vocabulary_path \<noteq> None then Inr fs
      else case fs data_path of
        None \<Rightarrow> Inl (NotFoundError data_path)
      | Some data \<Rightarrow>
          let vocab = fold (count_line normalize_digits) (readlines data) [];
              vocab_list = START_VOCAB @ sorted_by_count vocab;
              fs1 = write_file fs (vocabulary_path @ ''complete'')
                      (map (\<lambda>w. w @ '':'' @ str_nat (the (map_of vocab w)) @ [CHR 0x0A])
                           (sorted_by_count vocab));
              vocab_list' = (if int (length vocab_list) > max_vocabulary_size
                             then slice_to max_vocabulary_size vocab_list else vocab_list)
          in Inr (write_file fs1 vocabulary_path (map (\<lambda>w. w @ [CHR 0x0A]) vocab_list')))"

type_synonym vocabulary = "string \<rightharpoonup> int"

text \<open>
  Line 101, \<open>dict([(x, y) for (y, x) in enumerate(rev_vocab)])\<close>: the pairs are entered
  in order, so of two equal lines the later one gives the id.
\<close>

definition vocab_of :: "string list \<Rightarrow> vocabulary" where
  "vocab_of rev_vocab = fold (\<lambda>(y, x) m. m(x \<mapsto> int y)) (enumerate 0 rev_vocab) Map.empty"

text \<open>
  The \<open>ValueError\<close> is raised with two arguments, the message with its \<open>%s\<close> left as it
  is and the path.
\<close>

definition initialize_vocabulary :: "files \<Rightarrow> string \<Rightarrow> error + (vocabulary \<times> string list)" where
  "initialize_vocabulary fs vocabulary_path =
     (case fs vocabulary_path of
        Some content \<Rightarrow>
          let rev_vocab = map strip (readlines content)
          in Inr (vocab_of rev_vocab, rev_vocab)
      | None \<Rightarrow> Inl (ValueError ''Vocabulary file %s not found.'' vocabulary_path))"

text \<open>\<open>vocabulary.get(w, UNK_ID)\<close>\<close>

definition get_id :: "vocabulary \<Rightarrow> string \<Rightarrow> int" where
  "get_id vocabulary w = (case vocabulary w of Some i \<Rightarrow> i | None \<Rightarrow> UNK_ID)"

text \<open>
  The \<open>tokenizer\<close> argument of \<open>sentence_to_token_ids\<close> is whatever Python value the
  caller passes: \<open>None\<close>, a Boolean or a function. It is tested for truth and, when true,
  called; calling a Boolean raises \<open>TypeError\<close>.
\<close>

datatype pyarg = PyNone | PyBool bool | PyFun "string \<Rightarrow> tokens"

fun truthy :: "pyarg \<Rightarrow> bool" where
  "truthy PyNone = False"
| "truthy (PyBool b) = b"
| "truthy (PyFun f) = True"

fun call :: "pyarg \<Rightarrow> string \<Rightarrow> error + tokens" where
  "call (PyFun f) s = Inr (f s)"
| "call (PyBool b) s = Inl (TypeError ''bool object is not callable'')"
| "call PyNone s = Inl (TypeError ''NoneType object is not callable'')"

text \<open>The elements of the returned list: token ids, or the sentinel string itself.\<close>

datatype item = Id int | Tok string

definition sentence_to_token_ids ::
  "string \<Rightarrow> vocabulary \<Rightarrow> pyarg \<Rightarrow> bool \<Rightarrow> error + item list" where
  "sentence_to_token_ids sentence vocabulary tokenizer normalize_digits =
     (case (if truthy tokenizer then call tokenizer sentence
            else Inr (basic_tokenizer sentence)) of
        Inl e \<Rightarrow> Inl e
      | Inr words \<Rightarrow>
          if words = PyStr ''breakHerePlease'' then Inr [Tok ''breakHerePlease'']
          else if \<not> normalize_digits
            then Inr (map (\<lambda>w. Id (get_id vocabulary w)) (iter_tokens words))
          else Inr (map (\<lambda>w. Id (get_id vocabulary (re_sub_digit ''0'' w)))
                        (iter_tokens words)))"

fun str :: "item \<Rightarrow> string" where
  "str (Id i) = str_int i"
| "str (Tok s) = s"

text \<open>\<open>" ".join(xs)\<close>\<close>

fun join_space :: "string list \<Rightarrow> string" where
  "join_space [] = []"
| "join_space [x] = x"
| "join_space (x # y # ys) = x @ '' '' @ join_space (y # ys)"

text \<open>
  The loop of \<open>data_to_token_ids\<close> over the lines of the data file: the texts written to
  the target, or the first error raised.
\<close>

fun encode_lines :: "vocabulary \<Rightarrow> bool \<Rightarrow> string list \<Rightarrow> error + string list" where
  "encode_lines vocab normalize_digits [] = Inr []"
| "encode_lines vocab normalize_digits (line # rest) =
     (case sentence_to_token_ids line vocab (PyBool normalize_digits) True of
        Inl e \<Rightarrow> Inl e
      | Inr token_ids \<Rightarrow>
          (case encode_lines vocab normalize_digits rest of
             Inl e \<Rightarrow> Inl e
           | Inr written \<Rightarrow> Inr ((join_space (map str token_ids) @ [CHR 0x0A]) # written)))"

definition data_to_token_ids ::
  "files \<Rightarrow> string \<Rightarrow> string \<Rightarrow> string \<Rightarrow> bool \<Rightarrow> error + files" where
  "data_to_token_ids fs data_path target_path vocabulary_path normalize_digits =
     (if fs target_path \<noteq> None then Inr fs
      else case initialize_vocabulary fs vocabulary_path of
        Inl e \<Rightarrow> Inl e
      | Inr (vocab, rev_vocab) \<Rightarrow>
          (case fs data_path of
             None \<Rightarrow> Inl (NotFoundError data_path)
           | Some data \<Rightarrow>
               (case encode_lines vocab normalize_digits (readlines data) of
                  Inl e \<Rightarrow> Inl e
                | Inr written \<Rightarrow> Inr (write_file fs target_path written))))"


section \<open>Model creation (\<open>trainer/model/model_utils.py\<close>)\<close>

text \<open>
  After it has constructed the model object (lines 16 to 27; the class is defined in
  another file and is not modelled), \<open>create_model\<close> reads three settings of
  \<open>params\<close> and calls the TensorFlow library.
  The library is outside the repository, so its answers are parameters of the model:
  what \<open>tf.train.get_checkpoint_state\<close> finds in a directory (the
  \<open>model_checkpoint_path\<close> of the latest checkpoint, if any), which paths exist, and
  which paths \<open>saver.restore\<close> can restore from (it raises otherwise).
\<close>

record params =
  restore_model :: "string option"
  train_dir :: string
  log_dir :: string

record tf_env =
  get_checkpoint_state :: "string \<Rightarrow> string option"
  Exists :: "string \<Rightarrow> bool"
  restorable :: "string \<Rightarrow> bool"

text \<open>What \<open>create_model\<close> does to the session, in order.\<close>

datatype session_op =
    Restore string
  | InitializeAllVariables
  | FileWriter string

text \<open>\<open>if params.restore_model\<close>: \<open>None\<close> and the empty string are false.\<close>

definition is_set :: "string option \<Rightarrow> bool" where
  "is_set v = (case v of None \<Rightarrow> False | Some s \<Rightarrow> s \<noteq> [])"

definition saver_restore :: "tf_env \<Rightarrow> string \<Rightarrow> error + session_op list" where
  "saver_restore env path = (if restorable env path then Inr [Restore path] else Inl (RestoreError path))"

definition create_model :: "tf_env \<Rightarrow> params \<Rightarrow> error + session_op list" where
  "create_model env p =
     (let ckpt = get_checkpoint_state env (train_dir p)
      in if is_set (restore_model p) then saver_restore env (the (restore_model p))
         else
           (case (if ckpt \<noteq> None \<and> Exists env (the ckpt)
                  then saver_restore env (the ckpt)
                  else Inr [InitializeAllVariables]) of
              Inl e \<Rightarrow> Inl e
            | Inr ops \<Rightarrow> Inr (FileWriter (log_dir p) # ops)))"

text \<open>The operations that give the model its parameters.\<close>

fun sets_parameters :: "session_op \<Rightarrow> bool" where
  "sets_parameters (Restore path) = True"
| "sets_parameters InitializeAllVariables = True"
| "sets_parameters (FileWriter dir) = False"


section \<open>HTTP boundary (\<open>server.py\<close>)\<close>

text \<open>
  The global \<open>Marvin\<close> is \<open>None\<close> until \<open>initialize\<close> has stored the loaded bot in it.
  The class \<open>ChatBot\<close> is not part of the sources at hand: its constructor and its
  method \<open>respond\<close> are parameters, each returning a value or raising, and an instance
  counts as true in \<open>if not Marvin\<close>.
  A view function ends in one of two ways: \<open>abort(code)\<close> raises the HTTP exception of
  that status out of the view, or the view returns a response made with
  \<open>make_response(body, status)\<close>.
\<close>

datatype body = Content string | ErrorInfo error

datatype view_result = Aborted nat | Returned nat body

definition initialize :: "(unit \<Rightarrow> error + 'chatbot) \<Rightarrow> 'chatbot option \<Rightarrow> error + 'chatbot option" where
  "initialize ChatBot Marvin =
     (if Marvin = None
      then (case ChatBot () of Inl e \<Rightarrow> Inl e | Inr chatbot \<Rightarrow> Inr (Some chatbot))
      else Inr Marvin)"

text \<open>
  \<open>request.json\<close> is \<open>None\<close> or the posted object, kept as its list of members. Inside
  the \<open>try\<close> every exception, also the one of \<open>abort(400)\<close>, is caught by the bare
  \<open>except\<close>, which answers with status 500 and the caught exception as the error
  information.
\<close>

definition generate_response ::
  "'chatbot option \<Rightarrow> ('chatbot \<Rightarrow> string \<Rightarrow> error + string) \<Rightarrow> (string \<times> string) list option
     \<Rightarrow> view_result" where
  "generate_response Marvin respond json =
     (case Marvin of
        None \<Rightarrow> Aborted 418
      | Some chatbot \<Rightarrow>
          (case (if json = None \<or> json = Some [] \<or> map_of (the json) ''message'' = None
                 then Inl (HTTPException 400)
                 else respond chatbot (the (map_of (the json) ''message''))) of
             Inl e \<Rightarrow> Returned 500 (ErrorInfo e)
           | Inr response \<Rightarrow> Returned 200 (Content response)))"

text \<open>The status of the HTTP response that the framework sends for a view's result.\<close>

fun status :: "view_result \<Rightarrow> nat" where
  "status (Aborted code) = code"
| "status (Returned code b) = code"


section \<open>Words without white space\<close>

text \<open>The words that reach a vocabulary file contain no white-space character.\<close>

definition no_space :: "string \<Rightarrow> bool" where
  "no_space w \<longleftrightarrow> (\<forall>c\<in>set w. \<not> is_space c)"


section \<open>Auxiliary facts\<close>

subsection \<open>Writing lines and reading them back\<close>

lemma readlines_from_line:
  "CHR 0x0A \<notin> set w \<Longrightarrow>
     readlines_from cur (w @ CHR 0x0A # rest) = (cur @ w @ [CHR 0x0A]) # readlines_from [] rest"
  by (induction w arbitrary: cur) auto

lemma readlines_written:
  "\<forall>w\<in>set ws. CHR 0x0A \<notin> set w \<Longrightarrow>
     readlines (concat (map (\<lambda>w. w @ [CHR 0x0A]) ws)) = map (\<lambda>w. w @ [CHR 0x0A]) ws"
  unfolding readlines_def
  by (induction ws) (simp_all add: readlines_from_line)

lemma no_space_newline: "no_space w \<Longrightarrow> CHR 0x0A \<notin> set w"
  by (auto simp: no_space_def is_space_def)

lemma dropWhile_no_space: "no_space w \<Longrightarrow> dropWhile is_space (w @ r) = (if w = [] then dropWhile is_space r else w @ r)"
  by (cases w) (auto simp: no_space_def)

lemma strip_line: "no_space w \<Longrightarrow> strip (w @ [CHR 0x0A]) = w"
proof -
  assume w: "no_space w"
  have nl: "is_space (CHR 0x0A)" by (simp add: is_space_def)
  show ?thesis
  proof (cases "w = []")
    case True
    then show ?thesis using nl by (simp add: strip_def)
  next
    case False
    from w have rw: "no_space (rev w)" by (simp add: no_space_def)
    have "dropWhile is_space (w @ [CHR 0x0A]) = w @ [CHR 0x0A]"
      using w False by (simp add: dropWhile_no_space)
    moreover have "dropWhile is_space (rev w @ []) = rev w"
      using rw False by (simp only: dropWhile_no_space) simp
    ultimately show ?thesis using nl by (simp add: strip_def)
  qed
qed

lemma no_space_Nil: "no_space []"
  by (simp add: no_space_def)

lemma no_space_snoc: "no_space (cur @ [c]) \<longleftrightarrow> no_space cur \<and> \<not> is_space c"
  by (auto simp: no_space_def)

lemma no_space_Cons: "no_space (c # cs) \<longleftrightarrow> \<not> is_space c \<and> no_space cs"
  by (auto simp: no_space_def)

lemma split_from_no_space:
  "no_space cur \<Longrightarrow> w \<in> set (split_from cur s) \<Longrightarrow> no_space w"
proof (induction s arbitrary: cur)
  case Nil
  then show ?case by (simp split: if_splits)
next
  case (Cons c s)
  show ?case
  proof (cases "is_space c")
    case True
    with Cons.prems have "w = cur \<or> w \<in> set (split_from [] s)"
      by (auto split: if_splits)
    then show ?thesis using Cons.prems(1) Cons.IH [OF no_space_Nil] by blast
  next
    case False
    with Cons.prems have "no_space (cur @ [c])" "w \<in> set (split_from (cur @ [c]) s)"
      by (simp_all add: no_space_snoc)
    then show ?thesis by (rule Cons.IH)
  qed
qed

lemma re_split_from_no_space:
  "no_space cur \<Longrightarrow> no_space s \<Longrightarrow> w \<in> set (re_split_from cur s) \<Longrightarrow> no_space w"
proof (induction s arbitrary: cur)
  case Nil
  then show ?case by simp
next
  case (Cons c s)
  from Cons.prems(2) have c: "\<not> is_space c" and s: "no_space s"
    by (simp_all add: no_space_Cons)
  show ?case
  proof (cases "is_word_split c")
    case True
    with Cons.prems(3) have "w = cur \<or> w = [c] \<or> w \<in> set (re_split_from [] s)"
      by auto
    then show ?thesis
      using Cons.prems(1) c Cons.IH [OF no_space_Nil s] by (auto simp: no_space_Cons no_space_Nil)
  next
    case False
    with Cons.prems have "no_space (cur @ [c])" "w \<in> set (re_split_from (cur @ [c]) s)"
      using c by (simp_all add: no_space_snoc)
    then show ?thesis using Cons.IH s by blast
  qed
qed

lemma sentinel_no_space: "c \<in> set ''breakHerePlease'' \<Longrightarrow> \<not> is_space c"
  by (auto simp: is_space_def)

lemma tokens_no_space: "w \<in> set (iter_tokens (basic_tokenizer line)) \<Longrightarrow> no_space w"
proof (cases "strip line = ''breakHerePlease''")
  case True
  assume "w \<in> set (iter_tokens (basic_tokenizer line))"
  with True obtain c where "c \<in> set ''breakHerePlease''" "w = [c]"
    by (auto simp: basic_tokenizer_def)
  then show ?thesis using sentinel_no_space by (simp add: no_space_def)
next
  case False
  assume "w \<in> set (iter_tokens (basic_tokenizer line))"
  with False obtain frag where f: "frag \<in> set (split (strip line))" and w: "w \<in> set (re_split frag)"
    by (auto simp: basic_tokenizer_def)
  from f have "no_space frag"
    using split_from_no_space [OF no_space_Nil] by (simp add: split_def)
  with w show ?thesis
    using re_split_from_no_space [OF no_space_Nil] by (simp add: re_split_def)
qed

lemma re_sub_digit_no_space: "no_space repl \<Longrightarrow> no_space w \<Longrightarrow> no_space (re_sub_digit repl w)"
  by (auto simp: no_space_def re_sub_digit_def)

lemma keys_bump: "fst ` set (bump w v) = insert w (fst ` set v)"
  by (induction w v rule: bump.induct) auto

lemma keys_fold_bump:
  "fst ` set (fold (\<lambda>w v. bump (g w) v) ws v) = g ` set ws \<union> fst ` set v"
  by (induction ws arbitrary: v) (auto simp: keys_bump)

lemma keys_count_line:
  "\<forall>k\<in>fst ` set v. no_space k \<Longrightarrow> \<forall>k\<in>fst ` set (count_line nd line v). no_space k"
proof -
  assume v: "\<forall>k\<in>fst ` set v. no_space k"
  have h: "no_space ''100''" by (simp add: no_space_def is_space_def)
  show ?thesis
    unfolding count_line_def keys_fold_bump
    using v tokens_no_space [of _ line] re_sub_digit_no_space [OF h]
    by auto
qed

lemma keys_count_lines:
  "\<forall>k\<in>fst ` set v. no_space k \<Longrightarrow> \<forall>k\<in>fst ` set (fold (count_line nd) ls v). no_space k"
proof (induction ls arbitrary: v)
  case Nil
  then show ?case by simp
next
  case (Cons l ls)
  from keys_count_line [OF Cons.prems] have "\<forall>k\<in>fst ` set (count_line nd l v). no_space k" .
  from Cons.IH [OF this] show ?case by simp
qed

lemma set_sorted_by_count: "set (sorted_by_count v) = fst ` set v"
  by (simp add: sorted_by_count_def)

lemma START_VOCAB_no_space: "\<forall>w\<in>set START_VOCAB. no_space w"
  by (simp add: START_VOCAB_def PAD_def GO_def EOS_def UNK_def no_space_def is_space_def)

lemma vocab_list_no_space:
  "\<forall>w\<in>set (START_VOCAB @ sorted_by_count (fold (count_line nd) ls [])). no_space w"
  using keys_count_lines [of "[]" nd ls] START_VOCAB_no_space
  by (auto simp: set_sorted_by_count)

lemma read_back:
  assumes "\<forall>w\<in>set ws. no_space w"
  shows "map strip (readlines (concat (map (\<lambda>w. w @ [CHR 0x0A]) ws))) = ws"
proof -
  from assms have "\<forall>w\<in>set ws. CHR 0x0A \<notin> set w" using no_space_newline by blast
  then have "readlines (concat (map (\<lambda>w. w @ [CHR 0x0A]) ws)) = map (\<lambda>w. w @ [CHR 0x0A]) ws"
    by (rule readlines_written)
  moreover have "map strip (map (\<lambda>w. w @ [CHR 0x0A]) ws) = ws"
    using assms by (induction ws) (simp_all add: strip_line)
  ultimately show ?thesis by simp
qed

lemma set_slice_to: "set (slice_to n xs) \<subseteq> set xs"
  by (auto simp: slice_to_def dest: in_set_takeD)

lemma written_vocabulary:
  assumes "create_vocabulary fs vp dp m nd = Inr fs'" "fs vp = None"
  shows "\<exists>data. fs dp = Some data \<and>
           (let vocab_list = START_VOCAB @ sorted_by_count (fold (count_line nd) (readlines data) []);
                entries = (if int (length vocab_list) > m then slice_to m vocab_list else vocab_list)
            in (\<forall>w\<in>set entries. no_space w) \<and>
               fs' vp = (if entries = [] then None
                         else Some (concat (map (\<lambda>w. w @ [CHR 0x0A]) entries))))"
proof -
  from assms obtain data where d: "fs dp = Some data"
    by (auto simp: create_vocabulary_def split: option.splits)
  let ?vl = "START_VOCAB @ sorted_by_count (fold (count_line nd) (readlines data) [])"
  let ?en = "if int (length ?vl) > m then slice_to m ?vl else ?vl"
  have ns: "\<forall>w\<in>set ?en. no_space w"
    using vocab_list_no_space [of nd "readlines data"] set_slice_to [of m ?vl] by auto
  have "fs' vp = (if ?en = [] then None else Some (concat (map (\<lambda>w. w @ [CHR 0x0A]) ?en)))"
    using assms d by (auto simp: create_vocabulary_def Let_def write_file_def)
  with d ns show ?thesis by (simp add: Let_def)
qed

lemma create_vocabulary_creates:
  assumes "0 < m" and "create_vocabulary fs vp dp m nd = Inr fs'"
  shows "fs' vp \<noteq> None"
  using assms
  by (auto simp: create_vocabulary_def Let_def write_file_def slice_to_def START_VOCAB_def
           split: if_splits option.splits)

lemma keys_count_lines_eq:
  "fst ` set (fold (count_line nd) ls v) =
     (\<Union>line\<in>set ls. (\<lambda>w. if nd then re_sub_digit ''100'' w else w) `
                          set (iter_tokens (basic_tokenizer line))) \<union> fst ` set v"
proof (induction ls arbitrary: v)
  case Nil
  show ?case by simp
next
  case (Cons l ls)
  have "fst ` set (count_line nd l v) =
          (\<lambda>w. if nd then re_sub_digit ''100'' w else w) ` set (iter_tokens (basic_tokenizer l))
          \<union> fst ` set v"
    unfolding count_line_def by (rule keys_fold_bump)
  with Cons.IH [of "count_line nd l v"] show ?case by auto
qed

lemma str_nat_digits: "set (str_nat n) \<subseteq> set ''0123456789''"
proof (induction n rule: str_nat.induct)
  case (1 n)
  have m: "k < 10 \<Longrightarrow> ''0123456789'' ! k \<in> set ''0123456789''" for k
    by (rule nth_mem) simp
  show ?case
  proof (cases "n < 10")
    case True
    then have "str_nat n = [''0123456789'' ! n]" by (subst str_nat.simps) simp
    with m [OF True] show ?thesis by simp
  next
    case False
    then have e: "str_nat n = str_nat (n div 10) @ [''0123456789'' ! (n mod 10)]"
      by (subst str_nat.simps) simp
    have "n mod 10 < 10" by simp
    from m [OF this] 1 [OF False] show ?thesis
      unfolding e by simp
  qed
qed

lemma str_nat_no_newline: "CHR 0x0A \<notin> set (str_nat n)"
  using str_nat_digits [of n] by auto

lemma write_file_other: "p \<noteq> q \<Longrightarrow> write_file fs q chunks p = fs p"
  by (simp add: write_file_def)

lemma write_file_same: "chunks \<noteq> [] \<Longrightarrow> write_file fs p chunks p = Some (concat chunks)"
  by (simp add: write_file_def)

lemma create_vocabulary_complete:
  assumes "create_vocabulary fs vp dp m nd = Inr fs'" and "fs vp = None"
    and "fs dp = Some data"
  shows "fs' (vp @ ''complete'')
           = write_file fs (vp @ ''complete'')
               (map (\<lambda>w. w @ '':'' @
                       str_nat (the (map_of (fold (count_line nd) (readlines data) []) w)) @
                       [CHR 0x0A])
                    (sorted_by_count (fold (count_line nd) (readlines data) [])))
               (vp @ ''complete'')"
proof -
  have neq: "vp @ ''complete'' \<noteq> vp" by simp
  show ?thesis
    using assms by (auto simp: create_vocabulary_def Let_def write_file_other [OF neq])
qed

lemma complete_file:
  assumes "create_vocabulary fs vp dp m nd = Inr fs'" and "fs vp = None"
    and "fs dp = Some data"
    and "k \<in> fst ` set (fold (count_line nd) (readlines data) [])"
  shows "\<exists>content. fs' (vp @ ''complete'') = Some content \<and>
           k @ '':'' @ str_nat (the (map_of (fold (count_line nd) (readlines data) []) k)) @ [CHR 0x0A]
             \<in> set (readlines content)"
proof -
  define vocab where "vocab = fold (count_line nd) (readlines data) []"
  define g where "g = (\<lambda>w. w @ '':'' @ str_nat (the (map_of vocab w)))"
  define ls where "ls = map g (sorted_by_count vocab)"
  have k: "k \<in> set (sorted_by_count vocab)"
    using assms(4) by (simp add: set_sorted_by_count vocab_def)
  then have ne: "sorted_by_count vocab \<noteq> []" by auto
  have neq: "vp @ ''complete'' \<noteq> vp" by simp
  have lines: "map (\<lambda>w. w @ '':'' @ str_nat (the (map_of vocab w)) @ [CHR 0x0A]) (sorted_by_count vocab)
                 = map (\<lambda>w. w @ [CHR 0x0A]) ls"
    by (simp add: ls_def g_def)
  have "fs' (vp @ ''complete'')
          = write_file fs (vp @ ''complete'')
              (map (\<lambda>w. w @ '':'' @ str_nat (the (map_of vocab w)) @ [CHR 0x0A])
                   (sorted_by_count vocab)) (vp @ ''complete'')"
    unfolding vocab_def by (rule create_vocabulary_complete [OF assms(1,2,3)])
  then have "fs' (vp @ ''complete'')
               = write_file fs (vp @ ''complete'') (map (\<lambda>w. w @ [CHR 0x0A]) ls) (vp @ ''complete'')"
    by (simp only: lines)
  moreover have "map (\<lambda>w. w @ [CHR 0x0A]) ls \<noteq> []" using ne by (simp add: ls_def)
  ultimately have f: "fs' (vp @ ''complete'') = Some (concat (map (\<lambda>w. w @ [CHR 0x0A]) ls))"
    by (simp add: write_file_same)
  have "\<forall>w\<in>set ls. CHR 0x0A \<notin> set w"
  proof
    fix w assume "w \<in> set ls"
    then obtain u where u: "u \<in> set (sorted_by_count vocab)" and w: "w = g u"
      by (auto simp: ls_def)
    from u have "no_space u"
      using keys_count_lines [of "[]" nd "readlines data"]
      by (auto simp: set_sorted_by_count vocab_def)
    then have "CHR 0x0A \<notin> set u" by (rule no_space_newline)
    then show "CHR 0x0A \<notin> set w"
      using str_nat_no_newline by (simp add: w g_def)
  qed
  then have "readlines (concat (map (\<lambda>w. w @ [CHR 0x0A]) ls)) = map (\<lambda>w. w @ [CHR 0x0A]) ls"
    by (rule readlines_written)
  moreover have "g k @ [CHR 0x0A] \<in> set (map (\<lambda>w. w @ [CHR 0x0A]) ls)"
    using k by (simp add: ls_def)
  ultimately show ?thesis
    using f by (simp add: g_def vocab_def)
qed

lemma loaded_entries:
  assumes "create_vocabulary fs vp dp m nd = Inr fs'" and "fs vp = None"
    and "fs dp = Some data"
    and "initialize_vocabulary fs' vp = Inr (vocab, rev_vocab)"
  shows "rev_vocab =
           (if int (length (START_VOCAB @ sorted_by_count (fold (count_line nd) (readlines data) []))) > m
            then slice_to m (START_VOCAB @ sorted_by_count (fold (count_line nd) (readlines data) []))
            else START_VOCAB @ sorted_by_count (fold (count_line nd) (readlines data) []))"
proof -
  define vl where "vl = START_VOCAB @ sorted_by_count (fold (count_line nd) (readlines data) [])"
  define en where "en = (if int (length vl) > m then slice_to m vl else vl)"
  from written_vocabulary [OF assms(1,2)] assms(3)
  have ns: "\<forall>w\<in>set en. no_space w"
    and f: "fs' vp = (if en = [] then None else Some (concat (map (\<lambda>w. w @ [CHR 0x0A]) en)))"
    by (simp_all add: Let_def vl_def en_def)
  have rb: "map strip (readlines (concat (map (\<lambda>w. w @ [CHR 0x0A]) en))) = en"
    using ns by (rule read_back)
  have "rev_vocab = en"
    using assms(4) f rb by (auto simp: initialize_vocabulary_def Let_def split: if_splits)
  then show ?thesis by (simp add: en_def vl_def)
qed

subsection \<open>The loaded vocabulary\<close>

lemma vocab_of_snoc: "vocab_of (xs @ [x]) = (vocab_of xs)(x \<mapsto> int (length xs))"
  by (simp add: vocab_of_def enumerate_append_eq)

lemma vocab_of_Some:
  "vocab_of xs w = Some i \<Longrightarrow> 0 \<le> i \<and> nat i < length xs \<and> xs ! nat i = w"
proof (induction xs rule: rev_induct)
  case Nil
  then show ?case by (simp add: vocab_of_def)
next
  case (snoc x xs)
  show ?case
  proof (cases "w = x")
    case True
    with snoc.prems have "i = int (length xs)" by (simp add: vocab_of_snoc)
    with True show ?thesis by simp
  next
    case False
    with snoc.prems have "vocab_of xs w = Some i" by (simp add: vocab_of_snoc)
    from snoc.IH [OF this] show ?thesis by (simp add: nth_append)
  qed
qed

lemma vocab_of_Nil: "vocab_of [] = Map.empty"
  by (simp add: vocab_of_def)

lemma vocab_of_None: "vocab_of xs w = None \<longleftrightarrow> w \<notin> set xs"
  by (induction xs rule: rev_induct) (auto simp: vocab_of_snoc vocab_of_Nil)

lemma initialize_vocabulary_vocab:
  "initialize_vocabulary fs vp = Inr (vocab, rev_vocab) \<Longrightarrow> vocab = vocab_of rev_vocab"
  by (auto simp: initialize_vocabulary_def Let_def split: option.splits)

lemma get_id_loaded:
  assumes "initialize_vocabulary fs vp = Inr (vocab, rev_vocab)"
  shows "(w \<in> set rev_vocab \<longrightarrow>
            0 \<le> get_id vocab w \<and> nat (get_id vocab w) < length rev_vocab \<and>
            rev_vocab ! nat (get_id vocab w) = w) \<and>
         (w \<notin> set rev_vocab \<longrightarrow> get_id vocab w = UNK_ID)"
proof (cases "vocab_of rev_vocab w")
  case None
  then show ?thesis
    using initialize_vocabulary_vocab [OF assms] vocab_of_None [of rev_vocab w]
    by (simp add: get_id_def)
next
  case (Some i)
  then have "w \<in> set rev_vocab" using vocab_of_None [of rev_vocab w] by auto
  then show ?thesis
    using initialize_vocabulary_vocab [OF assms] vocab_of_Some [OF Some] Some
    by (simp add: get_id_def)
qed

lemma re_sub_digit_no_digit: "\<forall>c\<in>set w. \<not> is_digit c \<Longrightarrow> re_sub_digit repl w = w"
  by (induction w) (simp_all add: re_sub_digit_def)

subsection \<open>Digit substitution\<close>

lemma set_re_sub_digit:
  "set (re_sub_digit repl w) =
     {c \<in> set w. \<not> is_digit c} \<union> (if \<exists>c\<in>set w. is_digit c then set repl else {})"
  by (induction w) (auto simp: re_sub_digit_def)

lemma one_in_sub_100: "\<exists>c\<in>set w. is_digit c \<Longrightarrow> CHR ''1'' \<in> set (re_sub_digit ''100'' w)"
  by (simp add: set_re_sub_digit)

lemma zero_in_sub_0: "\<exists>c\<in>set w. is_digit c \<Longrightarrow> CHR ''0'' \<in> set (re_sub_digit ''0'' w)"
  by (simp add: set_re_sub_digit)

lemma one_not_in_sub_0: "CHR ''1'' \<notin> set (re_sub_digit ''0'' w)"
proof -
  have "is_digit CHR ''1''" by (simp add: is_digit_def)
  then show ?thesis by (auto simp: set_re_sub_digit split: if_splits)
qed

lemma zero_not_in_no_digit:
  "\<not> (\<exists>c\<in>set w. is_digit c) \<Longrightarrow> CHR ''0'' \<notin> set (re_sub_digit ''100'' w)"
proof -
  assume n: "\<not> (\<exists>c\<in>set w. is_digit c)"
  have "is_digit CHR ''0''" by (simp add: is_digit_def)
  with n show ?thesis by (auto simp: set_re_sub_digit)
qed

lemma sub_0_not_sub_100:
  assumes "\<exists>c\<in>set w. is_digit c"
  shows "re_sub_digit ''0'' w \<noteq> re_sub_digit ''100'' w'"
proof
  assume eq: "re_sub_digit ''0'' w = re_sub_digit ''100'' w'"
  show False
  proof (cases "\<exists>c\<in>set w'. is_digit c")
    case True
    from one_in_sub_100 [OF True] eq one_not_in_sub_0 [of w] show False by simp
  next
    case False
    from zero_not_in_no_digit [OF False] eq zero_in_sub_0 [OF assms] show False by simp
  qed
qed

lemma sub_0_not_reserved:
  assumes "\<exists>c\<in>set w. is_digit c"
  shows "re_sub_digit ''0'' w \<notin> set START_VOCAB"
proof
  assume "re_sub_digit ''0'' w \<in> set START_VOCAB"
  moreover have "CHR ''0'' \<in> set (re_sub_digit ''0'' w)"
    using assms by (simp add: set_re_sub_digit)
  ultimately show False
    by (auto simp: START_VOCAB_def PAD_def GO_def EOS_def UNK_def)
qed

subsection \<open>Encoding the lines of a file\<close>

lemma basic_tokenizer_PyStr: "basic_tokenizer line = PyStr s \<Longrightarrow> s = ''breakHerePlease''"
  by (auto simp: basic_tokenizer_def split: if_splits)

lemma sentence_to_token_ids_False:
  "sentence_to_token_ids line vocab (PyBool False) True =
     Inr (case basic_tokenizer line of
            PyStr s \<Rightarrow> [Tok s]
          | PyList ws \<Rightarrow> map (\<lambda>w. Id (get_id vocab (re_sub_digit ''0'' w))) ws)"
  using basic_tokenizer_PyStr [of line]
  by (cases "basic_tokenizer line") (auto simp: sentence_to_token_ids_def)

lemma encode_lines_False:
  "encode_lines vocab False ls =
     Inr (map (\<lambda>line. join_space (map str
                 (case basic_tokenizer line of
                    PyStr s \<Rightarrow> [Tok s]
                  | PyList ws \<Rightarrow> map (\<lambda>w. Id (get_id vocab (re_sub_digit ''0'' w))) ws))
               @ [CHR 0x0A]) ls)"
  by (induction ls) (simp_all add: sentence_to_token_ids_False)


section \<open>Evaluation on concrete inputs\<close>

lemmas tokenizer_defs =
  basic_tokenizer_def strip_def is_space_def split_def re_split_def is_word_split_def

lemmas vocabulary_defs =
  initialize_vocabulary_def readlines_def vocab_of_def get_id_def UNK_ID_def Let_def

lemmas encode_defs =
  sentence_to_token_ids_def re_sub_digit_def is_digit_def

lemmas build_defs =
  create_vocabulary_def count_line_def sorted_by_count_def write_file_def slice_to_def
  START_VOCAB_def PAD_def GO_def EOS_def UNK_def str_nat.simps


section \<open>Token-id conversion\<close>

text \<open>
  C1 (amended). Let the vocabulary be loaded by \<open>initialize_vocabulary\<close> and let the
  sentence be any sentence but the sentinel, so that the tokenizer returns a list of
  tokens. Encoding returns one id per token. Each token is looked up as written when
  \<open>normalize_digits\<close> is off, and with every digit replaced by \<open>0\<close> when it is on (the
  default). If the word looked up is a line of the vocabulary, the id is an index of
  \<open>rev_vocab\<close> and \<open>rev_vocab\<close> holds that word there; if it is not, the id is
  \<open>UNK_ID\<close>. A token without digits is looked up as written in both cases.
\<close>

theorem C1_lookup_roundtrip:
  assumes "initialize_vocabulary fs vp = Inr (vocab, rev_vocab)"
    and "basic_tokenizer s = PyList ws"
  shows "\<exists>ids. sentence_to_token_ids s vocab PyNone nd = Inr (map Id ids) \<and>
           length ids = length ws \<and>
           (\<forall>k<length ws.
              let w = (if nd then re_sub_digit ''0'' (ws ! k) else ws ! k)
              in (w \<in> set rev_vocab \<longrightarrow>
                    0 \<le> ids ! k \<and> nat (ids ! k) < length rev_vocab \<and>
                    rev_vocab ! nat (ids ! k) = w) \<and>
                 (w \<notin> set rev_vocab \<longrightarrow> ids ! k = UNK_ID) \<and>
                 ((\<forall>c\<in>set (ws ! k). \<not> is_digit c) \<longrightarrow> w = ws ! k))"
proof -
  let ?n = "\<lambda>w. if nd then re_sub_digit ''0'' w else w"
  let ?ids = "map (\<lambda>w. get_id vocab (?n w)) ws"
  have "sentence_to_token_ids s vocab PyNone nd = Inr (map Id ?ids)"
    using assms(2) by (simp add: sentence_to_token_ids_def comp_def)
  moreover have "length ?ids = length ws" by simp
  moreover have "\<forall>k<length ws.
              let w = ?n (ws ! k)
              in (w \<in> set rev_vocab \<longrightarrow>
                    0 \<le> ?ids ! k \<and> nat (?ids ! k) < length rev_vocab \<and>
                    rev_vocab ! nat (?ids ! k) = w) \<and>
                 (w \<notin> set rev_vocab \<longrightarrow> ?ids ! k = UNK_ID) \<and>
                 ((\<forall>c\<in>set (ws ! k). \<not> is_digit c) \<longrightarrow> w = ws ! k)"
    using get_id_loaded [OF assms(1)] re_sub_digit_no_digit [of _ "''0''"]
    by (simp add: Let_def)
  ultimately show ?thesis by blast
qed

text \<open>
  The theorem at a vocabulary file of six lines and the sentence "hello room101 there":
  \<open>hello\<close> is line 4, \<open>room101\<close> is looked up as \<open>room000\<close>, line 5, and \<open>there\<close> is
  unknown.
\<close>

theorem C1_lookup_roundtrip_witness:
  "initialize_vocabulary
     [''vocab'' \<mapsto> ''_PAD\<newline>_GO\<newline>_EOS\<newline>_UNK\<newline>hello\<newline>room000\<newline>''] ''vocab''
     = Inr (vocab_of [''_PAD'', ''_GO'', ''_EOS'', ''_UNK'', ''hello'', ''room000''],
            [''_PAD'', ''_GO'', ''_EOS'', ''_UNK'', ''hello'', ''room000'']) \<and>
   basic_tokenizer ''hello room101 there'' = PyList [''hello'', ''room101'', ''there''] \<and>
   sentence_to_token_ids ''hello room101 there''
       (vocab_of [''_PAD'', ''_GO'', ''_EOS'', ''_UNK'', ''hello'', ''room000'']) PyNone True
     = Inr [Id 4, Id 5, Id 3]"
proof -
  have v: "initialize_vocabulary
     [''vocab'' \<mapsto> ''_PAD\<newline>_GO\<newline>_EOS\<newline>_UNK\<newline>hello\<newline>room000\<newline>''] ''vocab''
     = Inr (vocab_of [''_PAD'', ''_GO'', ''_EOS'', ''_UNK'', ''hello'', ''room000''],
            [''_PAD'', ''_GO'', ''_EOS'', ''_UNK'', ''hello'', ''room000''])"
    by (simp add: initialize_vocabulary_def Let_def readlines_def strip_def is_space_def)
  have t: "basic_tokenizer ''hello room101 there'' = PyList [''hello'', ''room101'', ''there'']"
    by (simp add: tokenizer_defs)
  have e: "sentence_to_token_ids ''hello room101 there''
       (vocab_of [''_PAD'', ''_GO'', ''_EOS'', ''_UNK'', ''hello'', ''room000'']) PyNone True
     = Inr [Id 4, Id 5, Id 3]"
    by (simp add: t encode_defs vocab_of_def get_id_def UNK_ID_def)
  show ?thesis using C1_lookup_roundtrip [OF v t, of True] v t e by simp
qed

text \<open>
  C1 as first stated fails where digits are normalized, the default. With the
  vocabulary lines \<open>room000\<close> (id 4) and \<open>room101\<close> (id 5): the token \<open>room101\<close> is a
  line of the vocabulary and is encoded as 4, where \<open>rev_vocab\<close> holds \<open>room000\<close>; the
  token \<open>room102\<close> is no line of the vocabulary and is encoded as 4, not as \<open>UNK_ID\<close>.
\<close>

theorem C1_roundtrip_counterexample:
  "initialize_vocabulary
     [''vocab'' \<mapsto> ''_PAD\<newline>_GO\<newline>_EOS\<newline>_UNK\<newline>room000\<newline>room101\<newline>''] ''vocab''
     = Inr (vocab_of [''_PAD'', ''_GO'', ''_EOS'', ''_UNK'', ''room000'', ''room101''],
            [''_PAD'', ''_GO'', ''_EOS'', ''_UNK'', ''room000'', ''room101'']) \<and>
   basic_tokenizer ''room101'' = PyList [''room101''] \<and>
   sentence_to_token_ids ''room101''
       (vocab_of [''_PAD'', ''_GO'', ''_EOS'', ''_UNK'', ''room000'', ''room101'']) PyNone True
     = Inr [Id 4] \<and>
   [''_PAD'', ''_GO'', ''_EOS'', ''_UNK'', ''room000'', ''room101''] ! 4 = ''room000'' \<and>
   [''_PAD'', ''_GO'', ''_EOS'', ''_UNK'', ''room000'', ''room101''] ! 5 = ''room101'' \<and>
   basic_tokenizer ''room102'' = PyList [''room102''] \<and>
   sentence_to_token_ids ''room102''
       (vocab_of [''_PAD'', ''_GO'', ''_EOS'', ''_UNK'', ''room000'', ''room101'']) PyNone True
     = Inr [Id 4] \<and>
   UNK_ID = 3"
  by (simp add: tokenizer_defs vocabulary_defs encode_defs)


section \<open>Building the vocabulary\<close>

text \<open>
  C2 (amended). Let \<open>create_vocabulary\<close> build the vocabulary (no file at the path
  before) and succeed. For every cap \<open>max_vocabulary_size \<ge> 0\<close> the vocabulary read
  back from the file has at most that many entries, and its first four entries, or all
  of them when it has fewer, are the leading reserved symbols in the order PAD, GO, EOS,
  UNKNOWN. For every cap of at least 4 the file exists and its first four entries are
  PAD, GO, EOS, UNKNOWN, whatever the corpus.
\<close>

theorem C2_vocabulary_cap:
  assumes "create_vocabulary fs vp dp m nd = Inr fs'" and "fs vp = None"
  shows "(0 \<le> m \<longrightarrow>
            (\<forall>vocab rev_vocab. initialize_vocabulary fs' vp = Inr (vocab, rev_vocab) \<longrightarrow>
               int (length rev_vocab) \<le> m \<and>
               take 4 rev_vocab = take (length rev_vocab) START_VOCAB)) \<and>
         (4 \<le> m \<longrightarrow>
            (\<exists>vocab rev_vocab. initialize_vocabulary fs' vp = Inr (vocab, rev_vocab) \<and>
               take 4 rev_vocab = START_VOCAB))"
proof -
  from written_vocabulary [OF assms] obtain data where
    w: "let vocab_list = START_VOCAB @ sorted_by_count (fold (count_line nd) (readlines data) []);
            entries = (if int (length vocab_list) > m then slice_to m vocab_list else vocab_list)
        in (\<forall>w\<in>set entries. no_space w) \<and>
           fs' vp = (if entries = [] then None
                     else Some (concat (map (\<lambda>w. w @ [CHR 0x0A]) entries)))"
    by blast
  define vl where "vl = START_VOCAB @ sorted_by_count (fold (count_line nd) (readlines data) [])"
  define en where "en = (if int (length vl) > m then slice_to m vl else vl)"
  from w have ns: "\<forall>w\<in>set en. no_space w"
    and f: "fs' vp = (if en = [] then None else Some (concat (map (\<lambda>w. w @ [CHR 0x0A]) en)))"
    by (simp_all add: Let_def vl_def en_def)
  have rb: "map strip (readlines (concat (map (\<lambda>w. w @ [CHR 0x0A]) en))) = en"
    using ns by (rule read_back)
  have len: "length START_VOCAB = 4" by (simp add: START_VOCAB_def)
  have init: "initialize_vocabulary fs' vp = Inr (vocab, rev_vocab) \<Longrightarrow> rev_vocab = en"
    for vocab rev_vocab
    using f rb by (auto simp: initialize_vocabulary_def Let_def split: if_splits)
  have cap: "0 \<le> m \<Longrightarrow> int (length en) \<le> m \<and> take 4 en = take (length en) START_VOCAB"
    using len by (auto simp: en_def vl_def slice_to_def take_take min_def)
  have four: "4 \<le> m \<Longrightarrow> take 4 en = START_VOCAB \<and> en \<noteq> []"
    using len by (auto simp: en_def vl_def slice_to_def)
  have ex: "en \<noteq> [] \<Longrightarrow> \<exists>vocab. initialize_vocabulary fs' vp = Inr (vocab, en)"
    using f rb by (simp add: initialize_vocabulary_def Let_def)
  show ?thesis
  proof (intro conjI impI allI)
    fix vocab rev_vocab
    assume "0 \<le> m" "initialize_vocabulary fs' vp = Inr (vocab, rev_vocab)"
    then show "int (length rev_vocab) \<le> m" using init cap by blast
  next
    fix vocab rev_vocab
    assume "0 \<le> m" "initialize_vocabulary fs' vp = Inr (vocab, rev_vocab)"
    then show "take 4 rev_vocab = take (length rev_vocab) START_VOCAB" using init cap by blast
  next
    assume "4 \<le> m"
    then show "\<exists>vocab rev_vocab. initialize_vocabulary fs' vp = Inr (vocab, rev_vocab) \<and>
               take 4 rev_vocab = START_VOCAB"
      using four ex by blast
  qed
qed

text \<open>
  The theorem at the corpus "a b a" and the cap 5: the file holds the four reserved
  symbols and the most frequent word.
\<close>

theorem C2_vocabulary_cap_witness:
  "create_vocabulary [''d'' \<mapsto> ''a b a\<newline>''] ''v'' ''d'' 5 True
     = Inr [''d'' \<mapsto> ''a b a\<newline>'', ''vcomplete'' \<mapsto> ''a:2\<newline>b:1\<newline>'',
            ''v'' \<mapsto> ''_PAD\<newline>_GO\<newline>_EOS\<newline>_UNK\<newline>a\<newline>''] \<and>
   [''d'' \<mapsto> ''a b a\<newline>''] ''v'' = None \<and> (0::int) \<le> 5 \<and> (4::int) \<le> 5 \<and>
   initialize_vocabulary
       [''d'' \<mapsto> ''a b a\<newline>'', ''vcomplete'' \<mapsto> ''a:2\<newline>b:1\<newline>'',
        ''v'' \<mapsto> ''_PAD\<newline>_GO\<newline>_EOS\<newline>_UNK\<newline>a\<newline>''] ''v''
     = Inr (vocab_of [''_PAD'', ''_GO'', ''_EOS'', ''_UNK'', ''a''],
            [''_PAD'', ''_GO'', ''_EOS'', ''_UNK'', ''a'']) \<and>
   take 4 [''_PAD'', ''_GO'', ''_EOS'', ''_UNK'', ''a''] = START_VOCAB"
proof -
  have c: "create_vocabulary [''d'' \<mapsto> ''a b a\<newline>''] ''v'' ''d'' 5 True
     = Inr [''d'' \<mapsto> ''a b a\<newline>'', ''vcomplete'' \<mapsto> ''a:2\<newline>b:1\<newline>'',
            ''v'' \<mapsto> ''_PAD\<newline>_GO\<newline>_EOS\<newline>_UNK\<newline>a\<newline>'']"
    by (simp add: build_defs tokenizer_defs readlines_def re_sub_digit_def is_digit_def)
  have n: "[''d'' \<mapsto> ''a b a\<newline>''] ''v'' = None" by simp
  have i: "initialize_vocabulary
       [''d'' \<mapsto> ''a b a\<newline>'', ''vcomplete'' \<mapsto> ''a:2\<newline>b:1\<newline>'',
        ''v'' \<mapsto> ''_PAD\<newline>_GO\<newline>_EOS\<newline>_UNK\<newline>a\<newline>''] ''v''
     = Inr (vocab_of [''_PAD'', ''_GO'', ''_EOS'', ''_UNK'', ''a''],
            [''_PAD'', ''_GO'', ''_EOS'', ''_UNK'', ''a''])"
    by (simp add: initialize_vocabulary_def Let_def readlines_def strip_def is_space_def)
  show ?thesis
    using C2_vocabulary_cap [OF c n] c n i
    by (simp add: START_VOCAB_def PAD_def GO_def EOS_def UNK_def)
qed

text \<open>
  C2 as first stated fails for a cap below 4, and for a negative cap. On the corpus
  "a b a" the cap 2 leaves a file of the two entries PAD, GO: its first four entries
  are not the four reserved symbols. The cap -1 leaves a file of five entries, more
  than the cap.
\<close>

theorem C2_first_four_counterexample:
  "create_vocabulary [''d'' \<mapsto> ''a b a\<newline>''] ''v'' ''d'' 2 True
     = Inr [''d'' \<mapsto> ''a b a\<newline>'', ''vcomplete'' \<mapsto> ''a:2\<newline>b:1\<newline>'',
            ''v'' \<mapsto> ''_PAD\<newline>_GO\<newline>''] \<and>
   initialize_vocabulary
       [''d'' \<mapsto> ''a b a\<newline>'', ''vcomplete'' \<mapsto> ''a:2\<newline>b:1\<newline>'',
        ''v'' \<mapsto> ''_PAD\<newline>_GO\<newline>''] ''v''
     = Inr (vocab_of [''_PAD'', ''_GO''], [''_PAD'', ''_GO'']) \<and>
   take 4 [''_PAD'', ''_GO''] \<noteq> START_VOCAB \<and>
   create_vocabulary [''d'' \<mapsto> ''a b a\<newline>''] ''v'' ''d'' (- 1) True
     = Inr [''d'' \<mapsto> ''a b a\<newline>'', ''vcomplete'' \<mapsto> ''a:2\<newline>b:1\<newline>'',
            ''v'' \<mapsto> ''_PAD\<newline>_GO\<newline>_EOS\<newline>_UNK\<newline>a\<newline>''] \<and>
   initialize_vocabulary
       [''d'' \<mapsto> ''a b a\<newline>'', ''vcomplete'' \<mapsto> ''a:2\<newline>b:1\<newline>'',
        ''v'' \<mapsto> ''_PAD\<newline>_GO\<newline>_EOS\<newline>_UNK\<newline>a\<newline>''] ''v''
     = Inr (vocab_of [''_PAD'', ''_GO'', ''_EOS'', ''_UNK'', ''a''],
            [''_PAD'', ''_GO'', ''_EOS'', ''_UNK'', ''a'']) \<and>
   \<not> int (length [''_PAD'', ''_GO'', ''_EOS'', ''_UNK'', ''a'']) \<le> - 1"
  by (simp add: build_defs tokenizer_defs readlines_def re_sub_digit_def is_digit_def
                initialize_vocabulary_def Let_def)

text \<open>
  C3. With digit normalization on, building and encoding replace a digit by different
  texts. Let \<open>create_vocabulary\<close> build the vocabulary from a corpus in which some line
  has a token \<open>w\<close> with a digit, and let the vocabulary be loaded from the file it
  wrote. The word counted for \<open>w\<close> is \<open>w\<close> with every digit replaced by \<open>100\<close>: it is
  a line of the file of counts, and an entry of the vocabulary unless the cap has cut
  the list. \<open>sentence_to_token_ids\<close> looks \<open>w\<close> up with every digit replaced by \<open>0\<close>.
  That word differs from the word counted, it is no entry of the vocabulary at all, and
  so the token is encoded as \<open>UNK_ID\<close>.
\<close>

theorem C3_digit_placeholders_differ:
  assumes "create_vocabulary fs vp dp m True = Inr fs'" and "fs vp = None"
    and "fs dp = Some data"
    and "initialize_vocabulary fs' vp = Inr (vocab, rev_vocab)"
    and "line \<in> set (readlines data)" and "basic_tokenizer line = PyList ws"
    and "w \<in> set ws" and "\<exists>c\<in>set w. is_digit c"
  shows "(\<exists>content n. fs' (vp @ ''complete'') = Some content \<and>
            re_sub_digit ''100'' w @ '':'' @ str_nat n @ [CHR 0x0A] \<in> set (readlines content)) \<and>
         (int (length rev_vocab) < m \<longrightarrow> re_sub_digit ''100'' w \<in> set rev_vocab) \<and>
         sentence_to_token_ids line vocab PyNone True
           = Inr (map (\<lambda>w. Id (get_id vocab (re_sub_digit ''0'' w))) ws) \<and>
         re_sub_digit ''0'' w \<noteq> re_sub_digit ''100'' w \<and>
         re_sub_digit ''0'' w \<notin> set rev_vocab \<and>
         get_id vocab (re_sub_digit ''0'' w) = UNK_ID"
proof -
  define counts where "counts = fold (count_line True) (readlines data) []"
  define vl where "vl = START_VOCAB @ sorted_by_count counts"
  have keys: "fst ` set counts =
                (\<Union>l\<in>set (readlines data). re_sub_digit ''100'' ` set (iter_tokens (basic_tokenizer l)))"
    using keys_count_lines_eq [of True "readlines data" "[]"] by (simp add: counts_def)
  have counted: "re_sub_digit ''100'' w \<in> fst ` set counts"
    unfolding keys using assms(5,6,7) by force
  have rv: "rev_vocab = (if int (length vl) > m then slice_to m vl else vl)"
    using loaded_entries [OF assms(1,2,3,4)] by (simp add: vl_def counts_def)
  have c1: "\<exists>content n. fs' (vp @ ''complete'') = Some content \<and>
            re_sub_digit ''100'' w @ '':'' @ str_nat n @ [CHR 0x0A] \<in> set (readlines content)"
    using complete_file [OF assms(1,2,3), of "re_sub_digit ''100'' w"] counted
    unfolding counts_def by blast
  have c2: "int (length rev_vocab) < m \<longrightarrow> re_sub_digit ''100'' w \<in> set rev_vocab"
  proof
    assume lt: "int (length rev_vocab) < m"
    have "rev_vocab = vl"
    proof (cases "int (length vl) > m")
      case True
      with rv lt show ?thesis by (auto simp: slice_to_def split: if_splits)
    next
      case False
      with rv show ?thesis by simp
    qed
    with counted show "re_sub_digit ''100'' w \<in> set rev_vocab"
      by (simp add: vl_def set_sorted_by_count)
  qed
  have c3: "sentence_to_token_ids line vocab PyNone True
           = Inr (map (\<lambda>w. Id (get_id vocab (re_sub_digit ''0'' w))) ws)"
    using assms(6) by (simp add: sentence_to_token_ids_def)
  have c4: "re_sub_digit ''0'' w \<noteq> re_sub_digit ''100'' w"
    using sub_0_not_sub_100 [OF assms(8)] by blast
  have "set rev_vocab \<subseteq> set vl"
    using rv set_slice_to [of m vl] by (auto split: if_splits)
  moreover have "re_sub_digit ''0'' w \<notin> set vl"
  proof
    assume "re_sub_digit ''0'' w \<in> set vl"
    then have "re_sub_digit ''0'' w \<in> set START_VOCAB \<or> re_sub_digit ''0'' w \<in> fst ` set counts"
      by (simp add: vl_def set_sorted_by_count)
    then show False
    proof
      assume "re_sub_digit ''0'' w \<in> set START_VOCAB"
      with sub_0_not_reserved [OF assms(8)] show False by blast
    next
      assume "re_sub_digit ''0'' w \<in> fst ` set counts"
      then obtain w' where "re_sub_digit ''0'' w = re_sub_digit ''100'' w'"
        unfolding keys by auto
      with sub_0_not_sub_100 [OF assms(8)] show False by blast
    qed
  qed
  ultimately have c5: "re_sub_digit ''0'' w \<notin> set rev_vocab" by blast
  have c6: "get_id vocab (re_sub_digit ''0'' w) = UNK_ID"
    using get_id_loaded [OF assms(4), of "re_sub_digit ''0'' w"] c5 by blast
  show ?thesis
    by (intro conjI c1 c2 c3 c4 c5 c6)
qed

text \<open>
  The theorem at the corpus of the one line "room101" and the cap 10: the word counted
  and stored is \<open>room100100100\<close>, the word looked up is \<open>room000\<close>, and the line is
  encoded as the one id 3.
\<close>

theorem C3_digit_placeholders_differ_witness:
  "create_vocabulary [''d'' \<mapsto> ''room101\<newline>''] ''v'' ''d'' 10 True
     = Inr [''d'' \<mapsto> ''room101\<newline>'', ''vcomplete'' \<mapsto> ''room100100100:1\<newline>'',
            ''v'' \<mapsto> ''_PAD\<newline>_GO\<newline>_EOS\<newline>_UNK\<newline>room100100100\<newline>''] \<and>
   [''d'' \<mapsto> ''room101\<newline>''] ''v'' = None \<and>
   [''d'' \<mapsto> ''room101\<newline>''] ''d'' = Some ''room101\<newline>'' \<and>
   initialize_vocabulary
       [''d'' \<mapsto> ''room101\<newline>'', ''vcomplete'' \<mapsto> ''room100100100:1\<newline>'',
        ''v'' \<mapsto> ''_PAD\<newline>_GO\<newline>_EOS\<newline>_UNK\<newline>room100100100\<newline>''] ''v''
     = Inr (vocab_of [''_PAD'', ''_GO'', ''_EOS'', ''_UNK'', ''room100100100''],
            [''_PAD'', ''_GO'', ''_EOS'', ''_UNK'', ''room100100100'']) \<and>
   ''room101\<newline>'' \<in> set (readlines ''room101\<newline>'') \<and>
   basic_tokenizer ''room101\<newline>'' = PyList [''room101''] \<and>
   is_digit CHR ''1'' \<and>
   re_sub_digit ''100'' ''room101'' = ''room100100100'' \<and>
   re_sub_digit ''0'' ''room101'' = ''room000'' \<and>
   int (length [''_PAD'', ''_GO'', ''_EOS'', ''_UNK'', ''room100100100'']) < 10 \<and>
   ''room100100100'' \<in> set [''_PAD'', ''_GO'', ''_EOS'', ''_UNK'', ''room100100100''] \<and>
   ''room000'' \<notin> set [''_PAD'', ''_GO'', ''_EOS'', ''_UNK'', ''room100100100''] \<and>
   sentence_to_token_ids ''room101\<newline>''
       (vocab_of [''_PAD'', ''_GO'', ''_EOS'', ''_UNK'', ''room100100100'']) PyNone True
     = Inr [Id UNK_ID]"
proof -
  let ?fs = "[''d'' \<mapsto> ''room101\<newline>'']"
  let ?fs' = "[''d'' \<mapsto> ''room101\<newline>'', ''vcomplete'' \<mapsto> ''room100100100:1\<newline>'',
               ''v'' \<mapsto> ''_PAD\<newline>_GO\<newline>_EOS\<newline>_UNK\<newline>room100100100\<newline>'']"
  let ?R = "[''_PAD'', ''_GO'', ''_EOS'', ''_UNK'', ''room100100100'']"
  have h1: "create_vocabulary ?fs ''v'' ''d'' 10 True = Inr ?fs'"
    by (simp add: build_defs tokenizer_defs readlines_def re_sub_digit_def is_digit_def)
  have h2: "?fs ''v'' = None" by simp
  have h3: "?fs ''d'' = Some ''room101\<newline>''" by simp
  have h4: "initialize_vocabulary ?fs' ''v'' = Inr (vocab_of ?R, ?R)"
    by (simp add: initialize_vocabulary_def Let_def readlines_def strip_def is_space_def)
  have h5: "''room101\<newline>'' \<in> set (readlines ''room101\<newline>'')"
    by (simp add: readlines_def)
  have h6: "basic_tokenizer ''room101\<newline>'' = PyList [''room101'']"
    by (simp add: tokenizer_defs)
  have h7: "''room101'' \<in> set [''room101'']" by simp
  have d: "is_digit CHR ''1''" by (simp add: is_digit_def)
  then have h8: "\<exists>c\<in>set ''room101''. is_digit c" by simp
  have a: "re_sub_digit ''100'' ''room101'' = ''room100100100''"
    by (simp add: re_sub_digit_def is_digit_def)
  have b: "re_sub_digit ''0'' ''room101'' = ''room000''"
    by (simp add: re_sub_digit_def is_digit_def)
  have l: "int (length ?R) < 10" by simp
  note c = C3_digit_placeholders_differ [OF h1 h2 h3 h4 h5 h6 h7 h8]
  from c l have s: "''room100100100'' \<in> set ?R"
    unfolding a by blast
  from c have n: "''room000'' \<notin> set ?R"
    unfolding b by blast
  from c have "sentence_to_token_ids ''room101\<newline>'' (vocab_of ?R) PyNone True
                  = Inr (map (\<lambda>w. Id (get_id (vocab_of ?R) (re_sub_digit ''0'' w))) [''room101''])"
    and "get_id (vocab_of ?R) (re_sub_digit ''0'' ''room101'') = UNK_ID"
    by blast+
  then have e: "sentence_to_token_ids ''room101\<newline>'' (vocab_of ?R) PyNone True = Inr [Id UNK_ID]"
    by simp
  show ?thesis
    by (intro conjI h1 h2 h3 h4 h5 h6 d a b l s n e)
qed


section \<open>Tokenizer\<close>

text \<open>
  C4. The sentence "what is the meaning of life?" is tokenized into exactly the tokens
  what, is, the, meaning, of, life and the question mark, in this order.
\<close>

theorem C4_tokenize_meaning_of_life:
  "basic_tokenizer ''what is the meaning of life?'' =
     PyList [''what'', ''is'', ''the'', ''meaning'', ''of'', ''life'', ''?'']"
  by (simp add: tokenizer_defs)

text \<open>
  C5 (amended). For a sentence that is the literal \<open>breakHerePlease\<close>, with or without
  white space around it, the tokenizer does no splitting and returns the stripped
  literal itself, a string and not a list; \<open>sentence_to_token_ids\<close> with the default
  tokenizer then returns the list whose one element is that string.
\<close>

theorem C5_sentinel_passthrough:
  "strip sentence = ''breakHerePlease'' \<Longrightarrow>
     basic_tokenizer sentence = PyStr ''breakHerePlease'' \<and>
     sentence_to_token_ids sentence vocabulary PyNone normalize_digits
       = Inr [Tok ''breakHerePlease'']"
  by (simp add: basic_tokenizer_def sentence_to_token_ids_def)

text \<open>The theorem at the literal with two spaces before it and a line feed after it.\<close>

theorem C5_sentinel_passthrough_witness:
  "strip ''  breakHerePlease\<newline>'' = ''breakHerePlease'' \<and>
   basic_tokenizer ''  breakHerePlease\<newline>'' = PyStr ''breakHerePlease'' \<and>
   sentence_to_token_ids ''  breakHerePlease\<newline>'' Map.empty PyNone True
     = Inr [Tok ''breakHerePlease'']"
proof -
  have h: "strip ''  breakHerePlease\<newline>'' = ''breakHerePlease''"
    by (simp add: strip_def is_space_def)
  show ?thesis using h C5_sentinel_passthrough [OF h, of Map.empty True] by simp
qed

text \<open>
  C5 as first stated fails: what the tokenizer returns on the sentinel is the string,
  not a list of one string, and as a sequence it has the fifteen characters of the
  literal as its elements.
\<close>

theorem C5_tokenizer_counterexample:
  "basic_tokenizer ''breakHerePlease'' = PyStr ''breakHerePlease'' \<and>
   basic_tokenizer ''breakHerePlease'' \<noteq> PyList [''breakHerePlease''] \<and>
   length (iter_tokens (basic_tokenizer ''breakHerePlease'')) = 15"
  by (simp add: tokenizer_defs)


section \<open>Files that exist already\<close>

text \<open>
  C6. If a file exists at the vocabulary path, \<open>create_vocabulary\<close> returns without
  error and leaves every file as it was. And after a successful call with a positive
  cap the file exists, so that any further call for the same path changes nothing.
\<close>

theorem C6_existing_vocabulary_kept:
  "(fs vp \<noteq> None \<longrightarrow> create_vocabulary fs vp dp m nd = Inr fs) \<and>
   (0 < m \<and> create_vocabulary fs vp dp m nd = Inr fs' \<longrightarrow>
      create_vocabulary fs' vp dp' m' nd' = Inr fs')"
proof (intro conjI impI)
  assume "fs vp \<noteq> None"
  then show "create_vocabulary fs vp dp m nd = Inr fs"
    by (simp add: create_vocabulary_def)
next
  assume "0 < m \<and> create_vocabulary fs vp dp m nd = Inr fs'"
  then have "fs' vp \<noteq> None" using create_vocabulary_creates by blast
  then show "create_vocabulary fs' vp dp' m' nd' = Inr fs'"
    by (simp add: create_vocabulary_def)
qed

text \<open>
  The theorem at the corpus "a b a": the first call writes the two files, a second call
  on its result, with another cap and without normalization, returns that result.
\<close>

theorem C6_existing_vocabulary_kept_witness:
  "(0::int) < 5 \<and>
   create_vocabulary [''d'' \<mapsto> ''a b a\<newline>''] ''v'' ''d'' 5 True
     = Inr [''d'' \<mapsto> ''a b a\<newline>'', ''vcomplete'' \<mapsto> ''a:2\<newline>b:1\<newline>'',
            ''v'' \<mapsto> ''_PAD\<newline>_GO\<newline>_EOS\<newline>_UNK\<newline>a\<newline>''] \<and>
   [''d'' \<mapsto> ''a b a\<newline>'', ''vcomplete'' \<mapsto> ''a:2\<newline>b:1\<newline>'',
    ''v'' \<mapsto> ''_PAD\<newline>_GO\<newline>_EOS\<newline>_UNK\<newline>a\<newline>''] ''v'' \<noteq> None \<and>
   create_vocabulary
       [''d'' \<mapsto> ''a b a\<newline>'', ''vcomplete'' \<mapsto> ''a:2\<newline>b:1\<newline>'',
        ''v'' \<mapsto> ''_PAD\<newline>_GO\<newline>_EOS\<newline>_UNK\<newline>a\<newline>''] ''v'' ''d'' 7 False
     = Inr [''d'' \<mapsto> ''a b a\<newline>'', ''vcomplete'' \<mapsto> ''a:2\<newline>b:1\<newline>'',
            ''v'' \<mapsto> ''_PAD\<newline>_GO\<newline>_EOS\<newline>_UNK\<newline>a\<newline>'']"
proof -
  have c: "create_vocabulary [''d'' \<mapsto> ''a b a\<newline>''] ''v'' ''d'' 5 True
     = Inr [''d'' \<mapsto> ''a b a\<newline>'', ''vcomplete'' \<mapsto> ''a:2\<newline>b:1\<newline>'',
            ''v'' \<mapsto> ''_PAD\<newline>_GO\<newline>_EOS\<newline>_UNK\<newline>a\<newline>'']"
    by (simp add: build_defs tokenizer_defs readlines_def re_sub_digit_def is_digit_def)
  show ?thesis
    using c
      C6_existing_vocabulary_kept [of "[''d'' \<mapsto> ''a b a\<newline>'']" "''v''" "''d''" 5 True
        "[''d'' \<mapsto> ''a b a\<newline>'', ''vcomplete'' \<mapsto> ''a:2\<newline>b:1\<newline>'',
          ''v'' \<mapsto> ''_PAD\<newline>_GO\<newline>_EOS\<newline>_UNK\<newline>a\<newline>'']" "''d''" 7 False]
    by simp
qed

text \<open>
  C7 (amended). \<open>initialize_vocabulary\<close> raises if and only if no file exists at the
  vocabulary path; the error is the \<open>ValueError\<close> that carries the path, and if the
  file exists the pair of vocabulary and reverse vocabulary is returned.
  \<open>data_to_token_ids\<close> tests its target first. If the target does not exist yet, it
  loads the vocabulary before anything else and a missing vocabulary ends the call with
  that error. If the target exists, it returns without loading the vocabulary: nothing
  is raised and no file is changed, whether the vocabulary exists or not.
\<close>

theorem C7_vocabulary_missing:
  "((\<exists>e. initialize_vocabulary fs vp = Inl e) \<longleftrightarrow> fs vp = None) \<and>
   (fs vp = None \<longrightarrow>
      initialize_vocabulary fs vp = Inl (ValueError ''Vocabulary file %s not found.'' vp) \<and>
      (fs tp = None \<longrightarrow>
         data_to_token_ids fs dp tp vp nd
           = Inl (ValueError ''Vocabulary file %s not found.'' vp))) \<and>
   (fs tp \<noteq> None \<longrightarrow> data_to_token_ids fs dp tp vp nd = Inr fs) \<and>
   (fs vp \<noteq> None \<longrightarrow>
      (\<exists>vocab rev_vocab. initialize_vocabulary fs vp = Inr (vocab, rev_vocab)))"
  by (auto simp: initialize_vocabulary_def data_to_token_ids_def Let_def split: option.splits)

text \<open>
  The theorem at a file system with a data file only, at one with a vocabulary file of
  two lines, and at one where only the target exists.
\<close>

theorem C7_vocabulary_missing_witness:
  "[''d'' \<mapsto> ''hi\<newline>''] ''v'' = None \<and> [''d'' \<mapsto> ''hi\<newline>''] ''t'' = None \<and>
   initialize_vocabulary [''d'' \<mapsto> ''hi\<newline>''] ''v''
     = Inl (ValueError ''Vocabulary file %s not found.'' ''v'') \<and>
   data_to_token_ids [''d'' \<mapsto> ''hi\<newline>''] ''d'' ''t'' ''v'' False
     = Inl (ValueError ''Vocabulary file %s not found.'' ''v'') \<and>
   [''v'' \<mapsto> ''dog\<newline>cat\<newline>''] ''v'' \<noteq> None \<and>
   initialize_vocabulary [''v'' \<mapsto> ''dog\<newline>cat\<newline>''] ''v''
     = Inr (vocab_of [''dog'', ''cat''], [''dog'', ''cat'']) \<and>
   [''t'' \<mapsto> ''4 5\<newline>''] ''t'' \<noteq> None \<and>
   data_to_token_ids [''t'' \<mapsto> ''4 5\<newline>''] ''d'' ''t'' ''v'' False = Inr [''t'' \<mapsto> ''4 5\<newline>'']"
proof -
  have i: "initialize_vocabulary [''v'' \<mapsto> ''dog\<newline>cat\<newline>''] ''v''
     = Inr (vocab_of [''dog'', ''cat''], [''dog'', ''cat''])"
    by (simp add: initialize_vocabulary_def Let_def readlines_def strip_def is_space_def)
  show ?thesis
    using i
      C7_vocabulary_missing [of "[''d'' \<mapsto> ''hi\<newline>'']" "''v''" "''t''" "''d''" False]
      C7_vocabulary_missing [of "[''v'' \<mapsto> ''dog\<newline>cat\<newline>'']" "''v''" "''t''" "''d''" False]
      C7_vocabulary_missing [of "[''t'' \<mapsto> ''4 5\<newline>'']" "''v''" "''t''" "''d''" False]
    by simp
qed

text \<open>
  C7 as first stated fails where the target of \<open>data_to_token_ids\<close> exists: with no
  vocabulary file and no data file, the call returns the file system as it was and
  raises nothing.
\<close>

theorem C7_target_exists_counterexample:
  "[''t'' \<mapsto> ''4 5\<newline>''] ''v'' = None \<and>
   initialize_vocabulary [''t'' \<mapsto> ''4 5\<newline>''] ''v''
     = Inl (ValueError ''Vocabulary file %s not found.'' ''v'') \<and>
   data_to_token_ids [''t'' \<mapsto> ''4 5\<newline>''] ''d'' ''t'' ''v'' False = Inr [''t'' \<mapsto> ''4 5\<newline>'']"
  by (simp add: initialize_vocabulary_def data_to_token_ids_def)

text \<open>
  C10. \<open>data_to_token_ids\<close> hands its \<open>normalize_digits\<close> to \<open>sentence_to_token_ids\<close>
  in the place of the tokenizer. Called with \<open>normalize_digits = False\<close> on a target
  that does not exist yet, with the vocabulary and the data file present, it writes one
  line per line of the data: the ids of the tokens of \<open>basic_tokenizer\<close>, each token
  looked up with every digit replaced by \<open>0\<close>. The flag does not switch the
  normalization off.
\<close>

theorem C10_normalize_flag_ignored:
  assumes "fs target_path = None"
    and "initialize_vocabulary fs vocabulary_path = Inr (vocab, rev_vocab)"
    and "fs data_path = Some data"
  shows "data_to_token_ids fs data_path target_path vocabulary_path False =
           Inr (write_file fs target_path
                  (map (\<lambda>line. join_space (map str
                          (case basic_tokenizer line of
                             PyStr s \<Rightarrow> [Tok s]
                           | PyList ws \<Rightarrow>
                               map (\<lambda>w. Id (get_id vocab (re_sub_digit ''0'' w))) ws))
                        @ [CHR 0x0A])
                     (readlines data)))"
  using assms by (simp add: data_to_token_ids_def encode_lines_False)

text \<open>
  The theorem at the data line "room 101" and a vocabulary with the lines \<open>room\<close>
  (id 4) and \<open>000\<close> (id 5): the token \<open>101\<close> is written as 5.
\<close>

theorem C10_normalize_flag_ignored_witness:
  "[''vocab'' \<mapsto> ''_PAD\<newline>_GO\<newline>_EOS\<newline>_UNK\<newline>room\<newline>000\<newline>'',
    ''data'' \<mapsto> ''room 101\<newline>''] ''ids'' = None \<and>
   initialize_vocabulary
       [''vocab'' \<mapsto> ''_PAD\<newline>_GO\<newline>_EOS\<newline>_UNK\<newline>room\<newline>000\<newline>'',
        ''data'' \<mapsto> ''room 101\<newline>''] ''vocab''
     = Inr (vocab_of [''_PAD'', ''_GO'', ''_EOS'', ''_UNK'', ''room'', ''000''],
            [''_PAD'', ''_GO'', ''_EOS'', ''_UNK'', ''room'', ''000'']) \<and>
   [''vocab'' \<mapsto> ''_PAD\<newline>_GO\<newline>_EOS\<newline>_UNK\<newline>room\<newline>000\<newline>'',
    ''data'' \<mapsto> ''room 101\<newline>''] ''data'' = Some ''room 101\<newline>'' \<and>
   data_to_token_ids
       [''vocab'' \<mapsto> ''_PAD\<newline>_GO\<newline>_EOS\<newline>_UNK\<newline>room\<newline>000\<newline>'',
        ''data'' \<mapsto> ''room 101\<newline>''] ''data'' ''ids'' ''vocab'' False
     = Inr [''vocab'' \<mapsto> ''_PAD\<newline>_GO\<newline>_EOS\<newline>_UNK\<newline>room\<newline>000\<newline>'',
            ''data'' \<mapsto> ''room 101\<newline>'', ''ids'' \<mapsto> ''4 5\<newline>'']"
proof -
  let ?fs = "[''vocab'' \<mapsto> ''_PAD\<newline>_GO\<newline>_EOS\<newline>_UNK\<newline>room\<newline>000\<newline>'',
              ''data'' \<mapsto> ''room 101\<newline>'']"
  have t: "?fs ''ids'' = None" by simp
  have v: "initialize_vocabulary ?fs ''vocab''
     = Inr (vocab_of [''_PAD'', ''_GO'', ''_EOS'', ''_UNK'', ''room'', ''000''],
            [''_PAD'', ''_GO'', ''_EOS'', ''_UNK'', ''room'', ''000''])"
    by (simp add: initialize_vocabulary_def Let_def readlines_def strip_def is_space_def)
  have d: "?fs ''data'' = Some ''room 101\<newline>''" by simp
  have k: "basic_tokenizer ''room 101\<newline>'' = PyList [''room'', ''101'']"
    by (simp add: tokenizer_defs)
  have r: "write_file ?fs ''ids''
             (map (\<lambda>line. join_space (map str
                     (case basic_tokenizer line of
                        PyStr s \<Rightarrow> [Tok s]
                      | PyList ws \<Rightarrow>
                          map (\<lambda>w. Id (get_id
                                 (vocab_of [''_PAD'', ''_GO'', ''_EOS'', ''_UNK'', ''room'', ''000''])
                                 (re_sub_digit ''0'' w))) ws))
                   @ [CHR 0x0A])
                (readlines ''room 101\<newline>''))
           = ?fs(''ids'' \<mapsto> ''4 5\<newline>'')"
    by (simp add: readlines_def k write_file_def re_sub_digit_def is_digit_def
                  vocab_of_def get_id_def str_int_def str_nat.simps)
  have e: "data_to_token_ids ?fs ''data'' ''ids'' ''vocab'' False
             = Inr (?fs(''ids'' \<mapsto> ''4 5\<newline>''))"
    by (simp only: C10_normalize_flag_ignored [OF t v d] r)
  show ?thesis
    by (intro conjI t v d e)
qed


section \<open>Model creation\<close>

lemma create_model_restore:
  "is_set (restore_model p) \<Longrightarrow>
     create_model env p =
       (if restorable env (the (restore_model p))
        then Inr [Restore (the (restore_model p))]
        else Inl (RestoreError (the (restore_model p))))"
  by (simp add: create_model_def saver_restore_def Let_def)

lemma create_model_checkpoint:
  "\<not> is_set (restore_model p) \<Longrightarrow> get_checkpoint_state env (train_dir p) = Some path \<Longrightarrow>
     Exists env path \<Longrightarrow>
     create_model env p =
       (if restorable env path then Inr [FileWriter (log_dir p), Restore path]
        else Inl (RestoreError path))"
  by (simp add: create_model_def saver_restore_def Let_def)

lemma create_model_fresh:
  "\<not> is_set (restore_model p) \<Longrightarrow>
     get_checkpoint_state env (train_dir p) = None \<or>
       \<not> Exists env (the (get_checkpoint_state env (train_dir p))) \<Longrightarrow>
     create_model env p = Inr [FileWriter (log_dir p), InitializeAllVariables]"
  by (auto simp: create_model_def Let_def)

lemma create_model_once:
  assumes "create_model env p = Inr ops"
  shows "length (filter sets_parameters ops) = 1"
proof (cases "is_set (restore_model p)")
  case True
  with assms show ?thesis
    by (simp add: create_model_restore split: if_splits) auto
next
  case False
  show ?thesis
  proof (cases "get_checkpoint_state env (train_dir p)")
    case None
    with False assms show ?thesis by (simp add: create_model_fresh) auto
  next
    case (Some path)
    show ?thesis
    proof (cases "Exists env path")
      case True
      with False Some assms show ?thesis
        by (simp add: create_model_checkpoint split: if_splits) auto
    next
      case no: False
      with False Some assms show ?thesis by (simp add: create_model_fresh) auto
    qed
  qed
qed

text \<open>
  C8. \<open>create_model\<close> gives the model its parameters in one of three ways. If a restore
  path is set, they are restored from that path, and a path that cannot be restored
  from ends the call with the error: nothing is initialized instead. Otherwise, if the
  training directory names a latest checkpoint and that checkpoint exists, they are
  restored from it. Otherwise all variables are initialized afresh. Every call that
  returns has done exactly one of the three.
\<close>

theorem C8_restore_policy:
  "(is_set (restore_model p) \<longrightarrow>
      create_model env p =
        (if restorable env (the (restore_model p))
         then Inr [Restore (the (restore_model p))]
         else Inl (RestoreError (the (restore_model p))))) \<and>
   (\<not> is_set (restore_model p) \<longrightarrow>
      (\<forall>path. get_checkpoint_state env (train_dir p) = Some path \<and> Exists env path \<longrightarrow>
         create_model env p =
           (if restorable env path then Inr [FileWriter (log_dir p), Restore path]
            else Inl (RestoreError path))) \<and>
      (get_checkpoint_state env (train_dir p) = None \<or>
       \<not> Exists env (the (get_checkpoint_state env (train_dir p))) \<longrightarrow>
         create_model env p = Inr [FileWriter (log_dir p), InitializeAllVariables])) \<and>
   (\<forall>ops. create_model env p = Inr ops \<longrightarrow> length (filter sets_parameters ops) = 1)"
  using create_model_restore [of p env] create_model_checkpoint [of p env]
    create_model_fresh [of p env] create_model_once [of env p]
  by blast

text \<open>
  The theorem at four calls: a restore path that can be restored from, one that cannot,
  no restore path with a latest checkpoint, and no restore path with an empty training
  directory.
\<close>

theorem C8_restore_policy_witness:
  "is_set (Some ''saved/model'') \<and> \<not> is_set None \<and>
   create_model
     \<lparr>get_checkpoint_state = (\<lambda>d. if d = ''train'' then Some ''train/model-10'' else None),
      Exists = (\<lambda>f. f = ''train/model-10''), restorable = (\<lambda>f. f \<noteq> ''gone'')\<rparr>
     \<lparr>restore_model = Some ''saved/model'', train_dir = ''train'', log_dir = ''log''\<rparr>
     = Inr [Restore ''saved/model''] \<and>
   create_model
     \<lparr>get_checkpoint_state = (\<lambda>d. if d = ''train'' then Some ''train/model-10'' else None),
      Exists = (\<lambda>f. f = ''train/model-10''), restorable = (\<lambda>f. f \<noteq> ''gone'')\<rparr>
     \<lparr>restore_model = Some ''gone'', train_dir = ''train'', log_dir = ''log''\<rparr>
     = Inl (RestoreError ''gone'') \<and>
   create_model
     \<lparr>get_checkpoint_state = (\<lambda>d. if d = ''train'' then Some ''train/model-10'' else None),
      Exists = (\<lambda>f. f = ''train/model-10''), restorable = (\<lambda>f. f \<noteq> ''gone'')\<rparr>
     \<lparr>restore_model = None, train_dir = ''train'', log_dir = ''log''\<rparr>
     = Inr [FileWriter ''log'', Restore ''train/model-10''] \<and>
   create_model
     \<lparr>get_checkpoint_state = (\<lambda>d. None),
      Exists = (\<lambda>f. False), restorable = (\<lambda>f. f \<noteq> ''gone'')\<rparr>
     \<lparr>restore_model = None, train_dir = ''train'', log_dir = ''log''\<rparr>
     = Inr [FileWriter ''log'', InitializeAllVariables] \<and>
   length (filter sets_parameters [FileWriter ''log'', InitializeAllVariables]) = 1"
proof -
  let ?env = "\<lparr>get_checkpoint_state = (\<lambda>d. if d = ''train'' then Some ''train/model-10'' else None),
      Exists = (\<lambda>f. f = ''train/model-10''), restorable = (\<lambda>f. f \<noteq> ''gone'')\<rparr>"
  let ?empty = "\<lparr>get_checkpoint_state = (\<lambda>d. None),
      Exists = (\<lambda>f. False), restorable = (\<lambda>f. f \<noteq> ''gone'')\<rparr>"
  let ?saved = "\<lparr>restore_model = Some ''saved/model'', train_dir = ''train'', log_dir = ''log''\<rparr>"
  let ?gone = "\<lparr>restore_model = Some ''gone'', train_dir = ''train'', log_dir = ''log''\<rparr>"
  let ?p = "\<lparr>restore_model = None, train_dir = ''train'', log_dir = ''log''\<rparr>"
  have s1: "is_set (Some ''saved/model'')" and s2: "\<not> is_set None"
    by (simp_all add: is_set_def)
  have a: "create_model ?env ?saved = Inr [Restore ''saved/model'']"
    using C8_restore_policy [of ?saved ?env, THEN conjunct1] by (simp add: is_set_def)
  have b: "create_model ?env ?gone = Inl (RestoreError ''gone'')"
    using C8_restore_policy [of ?gone ?env, THEN conjunct1] by (simp add: is_set_def)
  have n: "\<not> is_set (restore_model ?p)" by (simp add: is_set_def)
  have g: "get_checkpoint_state ?env (train_dir ?p) = Some ''train/model-10'' \<and>
           Exists ?env ''train/model-10''"
    by simp
  from C8_restore_policy [of ?p ?env] n
  have "\<forall>path. get_checkpoint_state ?env (train_dir ?p) = Some path \<and> Exists ?env path \<longrightarrow>
         create_model ?env ?p =
           (if restorable ?env path then Inr [FileWriter (log_dir ?p), Restore path]
            else Inl (RestoreError path))"
    by blast
  then have "create_model ?env ?p =
           (if restorable ?env ''train/model-10''
            then Inr [FileWriter (log_dir ?p), Restore ''train/model-10'']
            else Inl (RestoreError ''train/model-10''))"
    using g by blast
  then have c: "create_model ?env ?p = Inr [FileWriter ''log'', Restore ''train/model-10'']"
    by simp
  have "get_checkpoint_state ?empty (train_dir ?p) = None" by simp
  with C8_restore_policy [of ?p ?empty] n
  have "create_model ?empty ?p = Inr [FileWriter (log_dir ?p), InitializeAllVariables]"
    by blast
  then have d: "create_model ?empty ?p = Inr [FileWriter ''log'', InitializeAllVariables]"
    by simp
  from C8_restore_policy [of ?p ?empty] d
  have e: "length (filter sets_parameters [FileWriter ''log'', InitializeAllVariables]) = 1"
    by blast
  show ?thesis
    by (intro conjI s1 s2 a b c d e)
qed


section \<open>HTTP boundary\<close>

text \<open>
  C9. While \<open>Marvin\<close> is not loaded, \<open>generate_response\<close> aborts with status 418
  whatever the request is: the answer is neither the status 500 of the failure path nor
  any other. Once \<open>Marvin\<close> is loaded, in particular after \<open>initialize\<close> has returned,
  the answer never has status 418: it has status 200 or 500.
\<close>

theorem C9_not_ready_signal:
  "generate_response None respond json = Aborted 418 \<and>
   status (generate_response None respond json) = 418 \<and>
   (Marvin \<noteq> None \<longrightarrow>
      status (generate_response Marvin respond json) \<noteq> 418 \<and>
      (status (generate_response Marvin respond json) = 200 \<or>
       status (generate_response Marvin respond json) = 500)) \<and>
   (\<forall>M. initialize ChatBot Marvin = Inr M \<longrightarrow>
      M \<noteq> None \<and> status (generate_response M respond json) \<noteq> 418)"
  by (auto simp: generate_response_def initialize_def split: option.splits sum.splits if_splits)

text \<open>
  The theorem at a bot that echoes the message: before loading the request is answered
  with 418, after \<open>initialize\<close> with 200 and the echo.
\<close>

theorem C9_not_ready_signal_witness:
  "generate_response (None :: unit option) (\<lambda>b m. Inr m) (Some [(''message'', ''hi'')])
     = Aborted 418 \<and>
   initialize (\<lambda>u. Inr ()) None = Inr (Some ()) \<and>
   Some () \<noteq> None \<and>
   generate_response (Some ()) (\<lambda>b m. Inr m) (Some [(''message'', ''hi'')])
     = Returned 200 (Content ''hi'') \<and>
   status (generate_response (Some ()) (\<lambda>b m. Inr m) (Some [(''message'', ''hi'')])) = 200"
  using
    C9_not_ready_signal [of "\<lambda>b m. Inr m" "Some [(''message'', ''hi'')]" "Some ()"
      "\<lambda>u. Inr ()"]
  by (simp add: generate_response_def initialize_def)

end
